theory Spec2Isabelle
  imports Main "HOL-Library.AList"
begin

section \<open>Objects and the attribute mapper\<close>

text \<open>
  The connector \<^verbatim>\<open>lib/plugin-mongodb-new-connector2.js\<close> moves JavaScript objects
  between a SCIM caller and two Prisma collections. An object is modelled flat: an
  association list from attribute path (\<^verbatim>\<open>name.givenName\<close>) to value, read with
  \<open>map_of\<close>; a property that reads \<^verbatim>\<open>undefined\<close> is a key that is not there.
  Identifiers are strings.
\<close>

type_synonym ident = string

datatype val = Str string | Bool bool

type_synonym obj = "(string \<times> val) list"

text \<open>\<^verbatim>\<open>o.k = v\<close>: assigning \<^verbatim>\<open>undefined\<close> leaves a property that reads undefined.\<close>

definition set_attr :: "string \<Rightarrow> val option \<Rightarrow> obj \<Rightarrow> obj" where
  "set_attr k v ob = (case v of None \<Rightarrow> AList.delete k ob | Some x \<Rightarrow> AList.update k x ob)"

text \<open>JavaScript truthiness of an optional string: undefined and the empty string are falsy.\<close>

definition truthy :: "string option \<Rightarrow> bool" where
  "truthy x = (case x of None \<Rightarrow> False | Some t \<Rightarrow> t \<noteq> [])"

text \<open>A template literal prints a missing string as \<^verbatim>\<open>undefined\<close>.\<close>

definition template :: "string option \<Rightarrow> string" where
  "template x = (case x of None \<Rightarrow> ''undefined'' | Some t \<Rightarrow> t)"

subsection \<open>The mapping tables of the configuration\<close>

text \<open>
  \<^verbatim>\<open>config/plugin-mongodb-new-connector2.json\<close>, \<^verbatim>\<open>endpoint.map\<close>: each entry names
  a field of the stored document, the SCIM attribute it maps to and a type. Only the types
  string and boolean occur.
\<close>

datatype rule_type = TString | TBoolean

record rule =
  field :: string
  mapTo :: string
  rtype :: rule_type

definition map_group :: "rule list" where
  "map_group =
    [\<lparr>field = ''id'', mapTo = ''id'', rtype = TString\<rparr>,
     \<lparr>field = ''_id'', mapTo = ''id'', rtype = TString\<rparr>,
     \<lparr>field = ''name'', mapTo = ''displayName'', rtype = TString\<rparr>]"

definition map_user :: "rule list" where
  "map_user =
    [\<lparr>field = ''id'', mapTo = ''id'', rtype = TString\<rparr>,
     \<lparr>field = ''_id'', mapTo = ''id'', rtype = TString\<rparr>,
     \<lparr>field = ''username'', mapTo = ''userName'', rtype = TString\<rparr>,
     \<lparr>field = ''active'', mapTo = ''active'', rtype = TBoolean\<rparr>,
     \<lparr>field = ''password'', mapTo = ''password'', rtype = TString\<rparr>,
     \<lparr>field = ''givenName'', mapTo = ''name.givenName'', rtype = TString\<rparr>,
     \<lparr>field = ''familyName'', mapTo = ''name.familyName'', rtype = TString\<rparr>,
     \<lparr>field = ''displayName'', mapTo = ''name.formatted'', rtype = TString\<rparr>,
     \<lparr>field = ''email'', mapTo = ''attributes.email.value'', rtype = TString\<rparr>,
     \<lparr>field = ''homePhone'', mapTo = ''phoneNumbers.home.value'', rtype = TString\<rparr>,
     \<lparr>field = ''postalCode'', mapTo = ''addresses.work.postalCode'', rtype = TString\<rparr>,
     \<lparr>field = ''streetAddress'', mapTo = ''addresses.work.streetAddress'', rtype = TString\<rparr>,
     \<lparr>field = ''telephoneNumber'', mapTo = ''attributes.telephoneNumber.value'', rtype = TString\<rparr>]"

subsection \<open>The mapper\<close>

text \<open>
  The operations call \<^verbatim>\<open>scimgateway.endpointMapper(direction, object, table)\<close> and
  take the first component of what it resolves to. In the operations below the mapper is
  a parameter \<open>M\<close> of this type.
\<close>

datatype direction = Inbound | Outbound

type_synonym mapper = "direction \<Rightarrow> obj \<Rightarrow> rule list \<Rightarrow> obj"

text \<open>
  Modelled from the spec: \<^verbatim>\<open>endpointMapper\<close> lives in \<^verbatim>\<open>lib/scimgateway.js\<close>, which
  is not among the sources. Section 4.1 of the specification: only attributes named by a
  rule are translated, any other is dropped silently. Outbound (SCIM to document), an
  attribute of the input that a rule maps to is stored under that rule's field, the value
  passed through (string and boolean rules pass values through; no table has a numeric
  rule). Rule sets are unique by SCIM name according to the specification; where a
  configured table lists a second rule for a name (\<^verbatim>\<open>_id\<close> after \<^verbatim>\<open>id\<close>), the first
  rule of the table is the one taken. Inbound (document to SCIM), each rule whose field
  the document holds assigns that value to the rule's SCIM attribute; a field the
  document lacks yields no attribute.
\<close>

definition outbound :: "rule list \<Rightarrow> obj \<Rightarrow> obj" where
  "outbound rules ob =
     fold (\<lambda>(k, v) acc. case find (\<lambda>r. mapTo r = k) rules of
                          None \<Rightarrow> acc
                        | Some r \<Rightarrow> AList.update (field r) v acc) ob []"

definition inbound :: "rule list \<Rightarrow> obj \<Rightarrow> obj" where
  "inbound rules doc =
     fold (\<lambda>r acc. case map_of doc (field r) of
                     None \<Rightarrow> acc
                   | Some v \<Rightarrow> AList.update (mapTo r) v acc) rules []"

definition endpointMapper :: mapper where
  "endpointMapper d ob rules = (case d of Outbound \<Rightarrow> outbound rules ob | Inbound \<Rightarrow> inbound rules ob)"

section \<open>The store\<close>

text \<open>
  \<^verbatim>\<open>userSchema\<close> and \<^verbatim>\<open>groupSchema\<close> are the Prisma delegates of the two
  collections; the connector reaches the store through them only.
\<close>

text \<open>
  Modelled from the spec: the Prisma schema of the two collections, which is not among
  the sources. Sections 3 and 6 of the specification give the records (a user and a group
  have an \<^verbatim>\<open>id\<close>, a group has \<^verbatim>\<open>members\<close>, an ordered sequence of user ids) and the
  store interface (\<^verbatim>\<open>findMany\<close>, \<^verbatim>\<open>findUnique\<close>, \<^verbatim>\<open>findFirst\<close>, \<^verbatim>\<open>create\<close>,
  \<^verbatim>\<open>update\<close>, \<^verbatim>\<open>delete\<close>; errors that tell a uniqueness violation and a missing
  record apart). A row carries its primary key and its remaining scalar columns, named as
  in the mapping tables; a group row carries the array \<^verbatim>\<open>members\<close> as well. The store
  is both collections, rows in insertion order.
\<close>

record user_row =
  u_id :: ident
  u_doc :: obj

record group_row =
  g_id :: ident
  g_doc :: obj
  g_members :: "ident list"

record store =
  users :: "user_row list"
  groups :: "group_row list"

text \<open>The scalar columns of a row as an object, the primary key under \<^verbatim>\<open>id\<close>.\<close>

definition user_obj :: "user_row \<Rightarrow> obj" where
  "user_obj u = (''id'', Str (u_id u)) # u_doc u"

definition group_obj :: "group_row \<Rightarrow> obj" where
  "group_obj g = (''id'', Str (g_id g)) # g_doc g"

text \<open>
  The \<^verbatim>\<open>where\<close> arguments the connector builds: an object of column equalities
  (\<^verbatim>\<open>{username: v}\<close>), \<^verbatim>\<open>{members: {has: x}}\<close> and \<^verbatim>\<open>{id: {in: xs}}\<close>. Prisma
  reads an undefined \<^verbatim>\<open>where\<close>, and an undefined operand of \<^verbatim>\<open>has\<close>, as no
  condition.
\<close>

datatype "where" = Fields obj | MembersHas "val option" | IdIn "ident list"

definition matches_fields :: "obj \<Rightarrow> obj \<Rightarrow> bool" where
  "matches_fields w doc = list_all (\<lambda>(k, v). map_of doc k = Some v) w"

fun user_matches :: "where \<Rightarrow> user_row \<Rightarrow> bool" where
  "user_matches (Fields w) u = matches_fields w (user_obj u)"
| "user_matches (IdIn xs) u = (u_id u \<in> set xs)"
| "user_matches (MembersHas x) u = False"

fun group_matches :: "where \<Rightarrow> group_row \<Rightarrow> bool" where
  "group_matches (Fields w) g = matches_fields w (group_obj g)"
| "group_matches (MembersHas x) g =
     (case x of None \<Rightarrow> True | Some (Str i) \<Rightarrow> i \<in> set (g_members g) | Some (Bool b) \<Rightarrow> False)"
| "group_matches (IdIn xs) g = (g_id g \<in> set xs)"

definition userSchema_findMany :: "where option \<Rightarrow> store \<Rightarrow> user_row list" where
  "userSchema_findMany w s =
     (case w of None \<Rightarrow> users s | Some c \<Rightarrow> filter (user_matches c) (users s))"

definition groupSchema_findMany :: "where option \<Rightarrow> store \<Rightarrow> group_row list" where
  "groupSchema_findMany w s =
     (case w of None \<Rightarrow> groups s | Some c \<Rightarrow> filter (group_matches c) (groups s))"

text \<open>\<^verbatim>\<open>findUnique\<close> and \<^verbatim>\<open>findFirst\<close>: the first row that matches, or null.\<close>

definition userSchema_findUnique :: "where \<Rightarrow> store \<Rightarrow> user_row option" where
  "userSchema_findUnique w s = find (user_matches w) (users s)"

definition userSchema_findFirst :: "where \<Rightarrow> store \<Rightarrow> user_row option" where
  "userSchema_findFirst w s = find (user_matches w) (users s)"

definition groupSchema_findUnique :: "where \<Rightarrow> store \<Rightarrow> group_row option" where
  "groupSchema_findUnique w s = find (group_matches w) (groups s)"

text \<open>
  What the store throws: Prisma's error code (\<^verbatim>\<open>P2002\<close> for a uniqueness violation,
  \<^verbatim>\<open>P2025\<close> when the record to change is not there), its \<^verbatim>\<open>meta\<close> as JSON text
  and its message. The connector branches on the code only; the two texts below stand
  for whatever the store writes there.
\<close>

record store_error =
  code :: string
  meta :: string
  message :: string

definition P2025 :: store_error where
  "P2025 = \<lparr>code = ''P2025'', meta = ''{}'', message = ''Record to change does not exist''\<rparr>"

definition P2002 :: "string \<Rightarrow> store_error" where
  "P2002 target = \<lparr>code = ''P2002'', meta = ''{target:'' @ target @ ''}'',
                   message = ''Unique constraint failed''\<rparr>"

fun upd_first :: "('a \<Rightarrow> bool) \<Rightarrow> ('a \<Rightarrow> 'a) \<Rightarrow> 'a list \<Rightarrow> 'a list" where
  "upd_first P f [] = []"
| "upd_first P f (x # xs) = (if P x then f x # xs else x # upd_first P f xs)"

fun del_first :: "('a \<Rightarrow> bool) \<Rightarrow> 'a list \<Rightarrow> 'a list" where
  "del_first P [] = []"
| "del_first P (x # xs) = (if P x then xs else x # del_first P xs)"

text \<open>
  \<^verbatim>\<open>update({where, data})\<close> rewrites the one record that matches, column by column;
  a payload \<^verbatim>\<open>id\<close> is written to the primary key.
\<close>

definition write_id :: "obj \<Rightarrow> ident \<Rightarrow> ident" where
  "write_id data i = (case map_of data ''id'' of Some (Str j) \<Rightarrow> j | _ \<Rightarrow> i)"

definition userSchema_update :: "where \<Rightarrow> obj \<Rightarrow> store \<Rightarrow> store_error + store" where
  "userSchema_update w data s =
     (case find (user_matches w) (users s) of
        None \<Rightarrow> Inl P2025
      | Some _ \<Rightarrow> Inr (s\<lparr>users := upd_first (user_matches w)
            (\<lambda>u. \<lparr>u_id = write_id data (u_id u),
                  u_doc = AList.merge (u_doc u) (AList.delete ''id'' data)\<rparr>) (users s)\<rparr>))"

text \<open>For groups the payload is its scalar columns and the new \<^verbatim>\<open>members\<close> array.\<close>

definition groupSchema_update :: "where \<Rightarrow> obj \<Rightarrow> ident list \<Rightarrow> store \<Rightarrow> store_error + store" where
  "groupSchema_update w data ms s =
     (case find (group_matches w) (groups s) of
        None \<Rightarrow> Inl P2025
      | Some _ \<Rightarrow> Inr (s\<lparr>groups := upd_first (group_matches w)
            (\<lambda>g. \<lparr>g_id = write_id data (g_id g),
                  g_doc = AList.merge (g_doc g) (AList.delete ''id'' data),
                  g_members = ms\<rparr>) (groups s)\<rparr>))"

definition userSchema_delete :: "where \<Rightarrow> store \<Rightarrow> store_error + store" where
  "userSchema_delete w s =
     (case find (user_matches w) (users s) of
        None \<Rightarrow> Inl P2025
      | Some _ \<Rightarrow> Inr (s\<lparr>users := del_first (user_matches w) (users s)\<rparr>))"

definition groupSchema_delete :: "where \<Rightarrow> store \<Rightarrow> store_error + store" where
  "groupSchema_delete w s =
     (case find (group_matches w) (groups s) of
        None \<Rightarrow> Inl P2025
      | Some _ \<Rightarrow> Inr (s\<lparr>groups := del_first (group_matches w) (groups s)\<rparr>))"

text \<open>
  \<^verbatim>\<open>create({data})\<close>: the primary key is the payload's \<^verbatim>\<open>id\<close>, or else the key
  \<open>newid\<close> the store generates; the primary key and the name column (\<^verbatim>\<open>username\<close>,
  \<^verbatim>\<open>name\<close>) are unique.
\<close>

definition userSchema_create :: "ident \<Rightarrow> obj \<Rightarrow> store \<Rightarrow> store_error + user_row \<times> store" where
  "userSchema_create newid data s =
     (let row = \<lparr>u_id = write_id data newid, u_doc = AList.delete ''id'' data\<rparr> in
      if list_ex (\<lambda>u. u_id u = u_id row) (users s) then Inl (P2002 ''id'')
      else if list_ex (\<lambda>u. map_of (u_doc u) ''username'' \<noteq> None \<and>
                 map_of (u_doc u) ''username'' = map_of (u_doc row) ''username'') (users s)
        then Inl (P2002 ''username'')
      else Inr (row, s\<lparr>users := users s @ [row]\<rparr>))"

definition groupSchema_create :: "ident \<Rightarrow> obj \<Rightarrow> ident list \<Rightarrow> store \<Rightarrow> store_error + group_row \<times> store" where
  "groupSchema_create newid data ms s =
     (let row = \<lparr>g_id = write_id data newid, g_doc = AList.delete ''id'' data, g_members = ms\<rparr> in
      if list_ex (\<lambda>g. g_id g = g_id row) (groups s) then Inl (P2002 ''id'')
      else if list_ex (\<lambda>g. map_of (g_doc g) ''name'' \<noteq> None \<and>
                 map_of (g_doc g) ''name'' = map_of (g_doc row) ''name'') (groups s)
        then Inl (P2002 ''name'')
      else Inr (row, s\<lparr>groups := groups s @ [row]\<rparr>))"

section \<open>The operations\<close>

text \<open>
  Every operation runs \<^verbatim>\<open>main()\<close> inside a promise; whatever \<^verbatim>\<open>main\<close> throws
  rejects the promise with a new \<^verbatim>\<open>Error\<close> that keeps the message. An operation is
  modelled as a function of the store that returns the outcome (the error, or what the
  promise resolves to) together with the store it leaves behind, so that writes made
  before a failure stay visible. A store call that the code awaits has taken effect when
  the code goes on; \<^verbatim>\<open>deleteUser\<close> makes calls that it does not await, and its model
  says so. Logging and \<^verbatim>\<open>prisma.$disconnect()\<close> are left
  out, and so are the arguments \<^verbatim>\<open>baseEntity\<close>, \<^verbatim>\<open>attributes\<close> and \<^verbatim>\<open>ctx\<close>, which
  the code only logs. The argument \<^verbatim>\<open>id\<close> of the source is written \<open>rid\<close>, as
  \<open>id\<close> is the identity function of HOL.
\<close>

datatype error = Error string

record getObj =
  attribute :: "string option"
  operator :: "string option"
  filter_value :: string
  rawFilter :: "string option"

text \<open>An entry \<^verbatim>\<open>{value, display}\<close> of a returned \<^verbatim>\<open>groups\<close> or \<^verbatim>\<open>members\<close> list.\<close>

record entry =
  e_value :: "val option"
  e_display :: "val option"

record resource =
  r_attrs :: obj
  r_refs :: "entry list"

subsection \<open>getUsers\<close>

text \<open>
  The mandatory if-else logic of \<^verbatim>\<open>getUsers\<close>: the value of \<^verbatim>\<open>filter\<close> it leaves
  (\<open>None\<close> for undefined), or the error it throws.
\<close>

definition getUsers_filter :: "mapper \<Rightarrow> getObj \<Rightarrow> error + obj option" where
  "getUsers_filter M g =
     (if truthy (operator g) then
        if operator g = Some ''eq'' \<and>
           attribute g \<in> set [Some ''id'', Some ''userName'', Some ''externalId'']
        then Inr (Some (M Outbound [(''userName'', Str (filter_value g))] map_user))
        else if operator g = Some ''eq'' \<and> attribute g = Some ''group.value''
        then Inl (Error (''getUsers error: not supporting groups member of user filtering: ''
                          @ template (rawFilter g)))
        else Inl (Error (''getUsers error: not supporting simpel filtering: ''
                          @ template (rawFilter g)))
      else if truthy (rawFilter g)
      then Inl (Error (''getUsers not error: supporting advanced filtering: ''
                          @ template (rawFilter g)))
      else Inr (Some []))"

text \<open>The groups of a user, as \<^verbatim>\<open>getUsers\<close> queries them for each row (lines 115 to 130).\<close>

definition listGroupsFor :: "store \<Rightarrow> val option \<Rightarrow> group_row list" where
  "listGroupsFor s userId = groupSchema_findMany (Some (MembersHas userId)) s"

definition group_entry :: "mapper \<Rightarrow> group_row \<Rightarrow> entry" where
  "group_entry M grp =
     (let formattedGroup = M Inbound (group_obj grp) map_group
      in \<lparr>e_value = map_of formattedGroup ''id'',
          e_display = map_of formattedGroup ''displayName''\<rparr>)"

definition user_resource :: "mapper \<Rightarrow> store \<Rightarrow> user_row \<Rightarrow> resource" where
  "user_resource M s row =
     (let scimUser = M Inbound (user_obj row) map_user;
          groupsList = map (group_entry M) (listGroupsFor s (map_of scimUser ''id''))
      in \<lparr>r_attrs = set_attr ''id'' (map_of scimUser ''userName'') scimUser,
          r_refs = groupsList\<rparr>)"

definition getUsers :: "mapper \<Rightarrow> store \<Rightarrow> getObj \<Rightarrow> error + resource list" where
  "getUsers M s g =
     (case getUsers_filter M g of
        Inl e \<Rightarrow> Inl e
      | Inr None \<Rightarrow> Inl (Error ''getUsers error: mandatory if-else logic not fully implemented'')
      | Inr (Some f) \<Rightarrow>
          Inr (map (user_resource M s) (userSchema_findMany (Some (Fields f)) s)))"

subsection \<open>getGroups\<close>

text \<open>
  The same if-else skeleton in \<^verbatim>\<open>getGroups\<close> assigns \<^verbatim>\<open>filter\<close> in its first branch
  only; the other branches are empty and there is no check afterwards.
\<close>

definition getGroups_filter :: "mapper \<Rightarrow> getObj \<Rightarrow> obj option" where
  "getGroups_filter M g =
     (if truthy (operator g) then
        if operator g = Some ''eq'' \<and>
           attribute g \<in> set [Some ''id'', Some ''displayName'', Some ''externalId'']
        then Some (M Outbound [(''id'', Str (filter_value g))] map_group)
        else if operator g = Some ''eq'' \<and> attribute g = Some ''members.value''
        then None
        else None
      else if truthy (rawFilter g)
      then None
      else None)"

definition user_entry :: "mapper \<Rightarrow> user_row \<Rightarrow> entry" where
  "user_entry M user =
     (let formattedUser = M Inbound (user_obj user) map_user
      in \<lparr>e_value = map_of formattedUser ''id'',
          e_display = map_of formattedUser ''userName''\<rparr>)"

definition group_resource :: "mapper \<Rightarrow> store \<Rightarrow> group_row \<Rightarrow> resource" where
  "group_resource M s row =
     (let scimGroup = M Inbound (group_obj row) map_group;
          found = userSchema_findMany (Some (IdIn (g_members row))) s
      in \<lparr>r_attrs = scimGroup, r_refs = map (user_entry M) found\<rparr>)"

definition getGroups :: "mapper \<Rightarrow> store \<Rightarrow> getObj \<Rightarrow> error + resource list" where
  "getGroups M s g =
     Inr (map (group_resource M s)
            (groupSchema_findMany (map_option Fields (getGroups_filter M g)) s))"

subsection \<open>createUser and createGroup\<close>

text \<open>
  The handler both create calls attach to the store's rejection: \<^verbatim>\<open>P2002\<close> becomes
  a duplicate-key error, anything else an error at a field.
\<close>

definition create_catch :: "store_error \<Rightarrow> error" where
  "create_catch err =
     (if code err = ''P2002'' then Error (''Duplicate key at '' @ meta err)
      else Error (''Error at field: '' @ meta err @ '': '' @ message err))"

definition createUser :: "mapper \<Rightarrow> ident \<Rightarrow> store \<Rightarrow> obj \<Rightarrow> (error + user_row) \<times> store" where
  "createUser M newid s userObj =
     (let newUser = M Outbound userObj map_user in
      case userSchema_create newid newUser s of
        Inl err \<Rightarrow> (Inl (create_catch err), s)
      | Inr (response, s') \<Rightarrow> (Inr response, s'))"

text \<open>A new group starts with \<^verbatim>\<open>members: []\<close>, whatever \<^verbatim>\<open>groupObj\<close> holds.\<close>

definition createGroup :: "mapper \<Rightarrow> ident \<Rightarrow> store \<Rightarrow> obj \<Rightarrow> (error + unit) \<times> store" where
  "createGroup M newid s groupObj =
     (let newGroup = M Outbound groupObj map_group in
      case groupSchema_create newid newGroup [] s of
        Inl err \<Rightarrow> (Inl (create_catch err), s)
      | Inr (response, s') \<Rightarrow> (Inr (), s'))"

subsection \<open>deleteUser and deleteGroup\<close>

text \<open>
  \<^verbatim>\<open>deleteUser\<close> looks the user up by \<^verbatim>\<open>{userName: id}\<close> and queries the groups
  that list its id. For each of them the callback of the \<^verbatim>\<open>forEach\<close> calls
  \<^verbatim>\<open>update\<close> with the group's id and the group's list without the user's id (lines 226
  to 231). These are the calls, in the order of \<^verbatim>\<open>groups\<close>.
\<close>

type_synonym group_update = "where \<times> ident list"

definition prune_update :: "user_row \<Rightarrow> group_row \<Rightarrow> group_update" where
  "prune_update user grp =
     (Fields [(''id'', Str (g_id grp))], filter (\<lambda>item. item \<noteq> u_id user) (g_members grp))"

definition prune_updates :: "user_row \<Rightarrow> store \<Rightarrow> group_update list" where
  "prune_updates user s =
     map (prune_update user)
       (groupSchema_findMany (Some (MembersHas (Some (Str (u_id user))))) s)"

text \<open>
  An update that the store carries out. When the store rejects it, nothing handles the
  rejection and the store stays as it is.
\<close>

definition land_update :: "group_update \<Rightarrow> store \<Rightarrow> store" where
  "land_update u t =
     (case groupSchema_update (fst u) [] (snd u) t of
        Inl err \<Rightarrow> t
      | Inr t' \<Rightarrow> t')"

text \<open>
  \<^verbatim>\<open>await groups?.forEach(async (group) => {...})\<close> awaits the \<^verbatim>\<open>undefined\<close> that
  \<^verbatim>\<open>forEach\<close> returns, not the updates: \<^verbatim>\<open>main\<close> goes on to the delete, and the
  promise settles, while any of the updates may still be under way. Which of them the
  store has carried out by then is not for the code to say, so the operation takes it as
  an argument: \<open>landed i\<close> tells whether the update at position \<open>i\<close>, in issue order, has
  been carried out when the promise settles. The others are still pending then.
\<close>

fun landed_from :: "nat \<Rightarrow> (nat \<Rightarrow> bool) \<Rightarrow> 'a list \<Rightarrow> 'a list" where
  "landed_from i landed [] = []"
| "landed_from i landed (u # us) =
     (if landed i then u # landed_from (Suc i) landed us else landed_from (Suc i) landed us)"

definition pruneUser :: "(nat \<Rightarrow> bool) \<Rightarrow> user_row \<Rightarrow> store \<Rightarrow> store" where
  "pruneUser landed user s =
     fold land_update (landed_from 0 landed (prune_updates user s)) s"

definition pending_updates :: "(nat \<Rightarrow> bool) \<Rightarrow> user_row \<Rightarrow> store \<Rightarrow> group_update list" where
  "pending_updates landed user s =
     landed_from 0 (\<lambda>i. \<not> landed i) (prune_updates user s)"

text \<open>The handler of a rejected \<^verbatim>\<open>delete\<close>, for a user (lines 239 to 245) and for a group.\<close>

definition deleteUser_catch :: "string \<Rightarrow> store_error \<Rightarrow> error" where
  "deleteUser_catch rid err =
     (if code err = ''P2025'' then Error (''User '' @ rid @ '' not found'')
      else Error (message err))"

definition deleteGroup_catch :: "string \<Rightarrow> store_error \<Rightarrow> error" where
  "deleteGroup_catch rid err =
     (if code err = ''P2025'' then Error (''Group '' @ rid @ '' not found'')
      else Error (message err))"

text \<open>The delete call itself, on the store as it is when the call is made.\<close>

definition deleteUser_delete :: "mapper \<Rightarrow> string \<Rightarrow> store \<Rightarrow> (error + unit) \<times> store" where
  "deleteUser_delete M rid s =
     (case userSchema_delete (Fields (M Outbound [(''userName'', Str rid)] map_user)) s of
        Inl err \<Rightarrow> (Inl (deleteUser_catch rid err), s)
      | Inr s' \<Rightarrow> (Inr (), s'))"

text \<open>
  \<^verbatim>\<open>deleteUser\<close>: the outcome, and the store as it is when the promise settles. The
  delete is awaited; of the updates, those that \<open>landed\<close> names have been carried out.
  An update and the delete write different collections, so their order does not show.
\<close>

definition deleteUser :: "mapper \<Rightarrow> (nat \<Rightarrow> bool) \<Rightarrow> store \<Rightarrow> string \<Rightarrow> (error + unit) \<times> store" where
  "deleteUser M landed s rid =
     (case userSchema_findUnique (Fields (M Outbound [(''userName'', Str rid)] map_user)) s of
        None \<Rightarrow> (Inl (Error (''User '' @ rid @ '' not found'')), s)
      | Some user \<Rightarrow> deleteUser_delete M rid (pruneUser landed user s))"

definition deleteGroup_delete :: "mapper \<Rightarrow> string \<Rightarrow> store \<Rightarrow> (error + unit) \<times> store" where
  "deleteGroup_delete M rid s =
     (case groupSchema_delete (Fields (M Outbound [(''id'', Str rid)] map_group)) s of
        Inl err \<Rightarrow> (Inl (deleteGroup_catch rid err), s)
      | Inr s' \<Rightarrow> (Inr (), s'))"

definition deleteGroup :: "mapper \<Rightarrow> store \<Rightarrow> string \<Rightarrow> (error + unit) \<times> store" where
  "deleteGroup M s rid =
     (case groupSchema_findUnique (Fields (M Outbound [(''id'', Str rid)] map_group)) s of
        None \<Rightarrow> (Inl (Error (''Group '' @ rid @ '' not found'')), s)
      | Some grp \<Rightarrow> deleteGroup_delete M rid s)"

subsection \<open>modifyUser\<close>

definition modifyUser :: "mapper \<Rightarrow> store \<Rightarrow> string \<Rightarrow> obj \<Rightarrow> (error + unit) \<times> store" where
  "modifyUser M s rid attrObj =
     (let updatedUser = M Outbound attrObj map_user;
          w = Fields (M Outbound [(''userName'', Str rid)] map_user) in
      case userSchema_findUnique w s of
        Some user \<Rightarrow>
          (case userSchema_update w updatedUser s of
             Inl err \<Rightarrow> (Inl (Error (message err)), s)
           | Inr s' \<Rightarrow> (Inr (), s'))
      | None \<Rightarrow> (Inl (Error (''User '' @ rid @ '' not found'')), s))"

subsection \<open>modifyGroup\<close>

text \<open>
  \<^verbatim>\<open>attrObj\<close> of \<^verbatim>\<open>modifyGroup\<close>: its scalar attributes and its \<^verbatim>\<open>members\<close>, the
  membership edits (no rule of the group table maps \<^verbatim>\<open>members\<close>, so the mapper is
  given the scalar attributes). An edit whose \<^verbatim>\<open>operation\<close> is anything but
  \<^verbatim>\<open>"delete"\<close>, also a missing one, adds.
\<close>

record member =
  m_value :: string
  m_operation :: "string option"

record group_attrObj =
  ga_attrs :: obj
  ga_members :: "member list"

text \<open>
  The member loop (lines 556 to 589) works on two variables that start as one array:
  \<^verbatim>\<open>let newMembers = selectedGroup.members\<close> copies the reference, so a \<^verbatim>\<open>push\<close> on
  \<^verbatim>\<open>newMembers\<close> also grows \<^verbatim>\<open>selectedGroup.members\<close>, until a delete edit binds
  \<^verbatim>\<open>newMembers\<close> to the new array that \<^verbatim>\<open>filter\<close> returns. The state of the loop is
  the contents of \<^verbatim>\<open>selectedGroup.members\<close> and, once \<^verbatim>\<open>newMembers\<close> is an array of its
  own, its contents.
\<close>

record edit_state =
  selected_members :: "ident list"
  own_array :: "ident list option"

definition newMembers :: "edit_state \<Rightarrow> ident list" where
  "newMembers st = (case own_array st of None \<Rightarrow> selected_members st | Some xs \<Rightarrow> xs)"

definition push_member :: "ident \<Rightarrow> edit_state \<Rightarrow> edit_state" where
  "push_member i st =
     (case own_array st of
        None \<Rightarrow> st\<lparr>selected_members := selected_members st @ [i]\<rparr>
      | Some xs \<Rightarrow> st\<lparr>own_array := Some (xs @ [i])\<rparr>)"

definition member_step :: "mapper \<Rightarrow> store \<Rightarrow> string \<Rightarrow> edit_state \<Rightarrow> member \<Rightarrow> error + edit_state" where
  "member_step M s rid st m =
     (let userFilter = M Outbound [(''userName'', Str (m_value m))] map_user in
      case userSchema_findFirst (Fields userFilter) s of
        None \<Rightarrow> Inl (Error (''User '' @ rid @ '' not found''))
      | Some user \<Rightarrow>
          if m_operation m = Some ''delete''
          then Inr (st\<lparr>own_array :=
                        Some (filter (\<lambda>item. item \<noteq> u_id user) (selected_members st))\<rparr>)
          else if u_id user \<notin> set (newMembers st)
          then Inr (push_member (u_id user) st)
          else Inr st)"

fun member_loop :: "mapper \<Rightarrow> store \<Rightarrow> string \<Rightarrow> edit_state \<Rightarrow> member list \<Rightarrow> error + edit_state" where
  "member_loop M s rid st [] = Inr st"
| "member_loop M s rid st (m # ms) =
     (case member_step M s rid st m of
        Inl e \<Rightarrow> Inl e
      | Inr st' \<Rightarrow> member_loop M s rid st' ms)"

definition applyMembershipEdits :: "mapper \<Rightarrow> store \<Rightarrow> string \<Rightarrow> ident list \<Rightarrow> member list \<Rightarrow> error + ident list" where
  "applyMembershipEdits M s rid members edits =
     (case member_loop M s rid \<lparr>selected_members = members, own_array = None\<rparr> edits of
        Inl e \<Rightarrow> Inl e
      | Inr st \<Rightarrow> Inr (newMembers st))"

definition modifyGroup :: "mapper \<Rightarrow> store \<Rightarrow> string \<Rightarrow> group_attrObj \<Rightarrow> (error + unit) \<times> store" where
  "modifyGroup M s rid attrObj =
     (let updatedGroup = M Outbound (ga_attrs attrObj) map_group;
          w = Fields (M Outbound [(''id'', Str rid)] map_group) in
      case groupSchema_findUnique w s of
        None \<Rightarrow> (Inl (Error (''Group '' @ rid @ '' not found'')), s)
      | Some selectedGroup \<Rightarrow>
          (case applyMembershipEdits M s rid (g_members selectedGroup) (ga_members attrObj) of
             Inl e \<Rightarrow> (Inl e, s)
           | Inr ms \<Rightarrow>
               (case groupSchema_update w (AList.delete ''id'' updatedGroup) ms s of
                  Inl err \<Rightarrow> (Inl (Error (message err)), s)
                | Inr s' \<Rightarrow> (Inr (), s'))))"

subsection \<open>The fold of the specification\<close>

text \<open>
  Section 4.3 of the specification, in its own words: each edit resolves its value to a
  user id; a delete removes the id from the working list, any other edit adds the id
  unless the working list has it; the edits are folded in input order over the group's
  current list. This is the reference the member loop is compared with.
\<close>

definition spec_edit :: "mapper \<Rightarrow> store \<Rightarrow> string \<Rightarrow> ident list \<Rightarrow> member \<Rightarrow> error + ident list" where
  "spec_edit M s rid working m =
     (case userSchema_findFirst (Fields (M Outbound [(''userName'', Str (m_value m))] map_user)) s of
        None \<Rightarrow> Inl (Error (''User '' @ rid @ '' not found''))
      | Some user \<Rightarrow>
          Inr (if m_operation m = Some ''delete''
               then filter (\<lambda>item. item \<noteq> u_id user) working
               else if u_id user \<in> set working then working
               else working @ [u_id user]))"

fun spec_applyMembershipEdits :: "mapper \<Rightarrow> store \<Rightarrow> string \<Rightarrow> ident list \<Rightarrow> member list \<Rightarrow> error + ident list" where
  "spec_applyMembershipEdits M s rid working [] = Inr working"
| "spec_applyMembershipEdits M s rid working (m # ms) =
     (case spec_edit M s rid working m of
        Inl e \<Rightarrow> Inl e
      | Inr working' \<Rightarrow> spec_applyMembershipEdits M s rid working' ms)"

subsection \<open>The invariant of the member lists\<close>

definition members_distinct :: "store \<Rightarrow> bool" where
  "members_distinct s = list_all (\<lambda>g. distinct (g_members g)) (groups s)"

subsection \<open>The invariant of the member loop\<close>

text \<open>Neither array of the loop holds an id twice.\<close>

definition loop_inv :: "edit_state \<Rightarrow> bool" where
  "loop_inv st =
     (distinct (selected_members st) \<and>
      (case own_array st of None \<Rightarrow> True | Some xs \<Rightarrow> distinct xs))"

subsection \<open>A sample store\<close>

text \<open>Two users and one group that has both, for the concrete evaluations below.\<close>

definition alice :: user_row where
  "alice = \<lparr>u_id = ''u1'', u_doc = [(''username'', Str ''alice'')]\<rparr>"

definition bob :: user_row where
  "bob = \<lparr>u_id = ''u2'', u_doc = [(''username'', Str ''bob'')]\<rparr>"

definition eng :: group_row where
  "eng = \<lparr>g_id = ''g1'', g_doc = [(''name'', Str ''eng'')], g_members = [''u1'', ''u2'']\<rparr>"

definition sample :: store where
  "sample = \<lparr>users = [alice, bob], groups = [eng]\<rparr>"

definition edit :: "string \<Rightarrow> string \<Rightarrow> member" where
  "edit v operation = \<lparr>m_value = v, m_operation = Some operation\<rparr>"

definition eq_filter :: "string \<Rightarrow> string \<Rightarrow> getObj" where
  "eq_filter a v =
     \<lparr>attribute = Some a, operator = Some ''eq'', filter_value = v,
      rawFilter = Some (a @ '' eq '' @ v)\<rparr>"

text \<open>The filter \<^verbatim>\<open>displayName co "en"\<close>, and no filter at all.\<close>

definition contains_filter :: getObj where
  "contains_filter =
     \<lparr>attribute = Some ''displayName'', operator = Some ''co'', filter_value = ''en'',
      rawFilter = Some (''displayName co '' @ [CHR 0x22] @ ''en'' @ [CHR 0x22])\<rparr>"

definition no_filter :: getObj where
  "no_filter = \<lparr>attribute = None, operator = None, filter_value = [], rawFilter = None\<rparr>"

text \<open>The group of the sample store as \<^verbatim>\<open>getGroups\<close> returns it.\<close>

definition eng_resource :: resource where
  "eng_resource =
     \<lparr>r_attrs = [(''id'', Str ''g1''), (''displayName'', Str ''eng'')],
      r_refs = [\<lparr>e_value = Some (Str ''u1''), e_display = Some (Str ''alice'')\<rparr>,
                \<lparr>e_value = Some (Str ''u2''), e_display = Some (Str ''bob'')\<rparr>]\<rparr>"

text \<open>
  The store of the specification's scenario, the group still empty; and the sample store
  without bob, whose id the group still lists.
\<close>

definition scenario :: store where
  "scenario = \<lparr>users = [alice, bob], groups = [eng\<lparr>g_members := []\<rparr>]\<rparr>"

definition dangling :: store where
  "dangling = \<lparr>users = [alice], groups = [eng]\<rparr>"

section \<open>Properties\<close>

lemmas sample_defs = sample_def alice_def bob_def eng_def edit_def eq_filter_def
  scenario_def dangling_def

lemmas mapper_defs = endpointMapper_def outbound_def inbound_def map_user_def map_group_def

lemmas store_defs = userSchema_findMany_def groupSchema_findMany_def
  userSchema_findUnique_def userSchema_findFirst_def groupSchema_findUnique_def
  matches_fields_def user_obj_def group_obj_def

lemma map_of_set_attr: "map_of (set_attr k v ob) k' = (if k' = k then v else map_of ob k')"
  by (simp add: set_attr_def update_conv' delete_conv' split: option.splits)

subsection \<open>Lists and the store\<close>

lemma find_Some_set: "find P xs = Some x \<Longrightarrow> x \<in> set xs \<and> P x"
  by (induction xs) (auto split: if_splits)

lemma list_all_del_first: "list_all Q xs \<Longrightarrow> list_all Q (del_first P xs)"
  by (induction xs) auto

lemma list_all_upd_first:
  "list_all Q xs \<Longrightarrow> (\<And>x. x \<in> set xs \<Longrightarrow> P x \<Longrightarrow> Q (f x)) \<Longrightarrow> list_all Q (upd_first P f xs)"
  by (induction xs) auto

lemma find_upd_first:
  "find P xs = Some x \<Longrightarrow> P (f x) \<Longrightarrow> find P (upd_first P f xs) = Some (f x)"
  by (induction xs) (auto split: if_splits)

lemma map_upd_first_same:
  "find P xs = Some x \<Longrightarrow> h (f x) = h x \<Longrightarrow> map h (upd_first P f xs) = map h xs"
  by (induction xs) (auto split: if_splits)

text \<open>Where a key identifies at most one row, updating the first match updates the match.\<close>

lemma upd_first_by_key:
  "distinct (map k xs) \<Longrightarrow>
     upd_first (\<lambda>x. k x = i) f xs = map (\<lambda>x. if k x = i then f x else x) xs"
proof (induction xs)
  case Nil
  then show ?case by simp
next
  case (Cons x xs)
  show ?case
  proof (cases "k x = i")
    case True
    with Cons.prems have "i \<notin> k ` set xs" by auto
    then have "\<forall>y \<in> set xs. k y \<noteq> i" by blast
    then have "map (\<lambda>x. if k x = i then f x else x) xs = xs"
      by (induction xs) auto
    with True show ?thesis by simp
  next
    case False
    with Cons show ?thesis by simp
  qed
qed

lemma group_matches_id: "group_matches (Fields [(''id'', Str i)]) g = (g_id g = i)"
  by (simp add: matches_fields_def group_obj_def)

lemma write_id_empty: "write_id [] i = i"
  by (simp add: write_id_def)

lemma write_id_stripped: "write_id (AList.delete ''id'' data) i = i"
  by (simp add: write_id_def delete_conv')

lemma outbound_id: "endpointMapper Outbound [(''id'', Str i)] map_group = [(''id'', Str i)]"
  by (simp add: mapper_defs)

lemma groupSchema_update_run:
  assumes "find (group_matches w) (groups s) = Some g"
  shows "groupSchema_update w data ms s =
           Inr (s\<lparr>groups := upd_first (group_matches w)
                  (\<lambda>g. \<lparr>g_id = write_id data (g_id g),
                        g_doc = AList.merge (g_doc g) (AList.delete ''id'' data),
                        g_members = ms\<rparr>) (groups s)\<rparr>)"
  using assms by (simp add: groupSchema_update_def)

lemma groupSchema_update_users:
  "groupSchema_update w data ms s = Inr s' \<Longrightarrow> users s' = users s"
  by (auto simp: groupSchema_update_def split: option.splits)

lemma groupSchema_update_members_distinct:
  "members_distinct s \<Longrightarrow> distinct ms \<Longrightarrow> groupSchema_update w data ms s = Inr s' \<Longrightarrow>
     members_distinct s'"
  by (auto simp: groupSchema_update_def members_distinct_def split: option.splits
      intro!: list_all_upd_first)

lemma modifyGroup_run:
  assumes "groupSchema_findUnique (Fields (M Outbound [(''id'', Str rid)] map_group)) s = Some g"
      and "applyMembershipEdits M s rid (g_members g) (ga_members a) = Inr ms"
      and "groupSchema_update (Fields (M Outbound [(''id'', Str rid)] map_group))
             (AList.delete ''id'' (M Outbound (ga_attrs a) map_group)) ms s = Inr s'"
  shows "modifyGroup M s rid a = (Inr (), s')"
  using assms by (simp add: modifyGroup_def)

subsection \<open>The member loop on add edits\<close>

lemma add_once:
  assumes "userSchema_findFirst (Fields (M Outbound [(''userName'', Str v)] map_user)) s = Some user"
  shows "applyMembershipEdits M s rid ms [edit v ''add'']
           = Inr (if u_id user \<in> set ms then ms else ms @ [u_id user])"
  using assms
  by (simp add: applyMembershipEdits_def member_step_def newMembers_def push_member_def edit_def)

lemma add_twice:
  assumes "userSchema_findFirst (Fields (M Outbound [(''userName'', Str v)] map_user)) s = Some user"
  shows "applyMembershipEdits M s rid ms [edit v ''add'', edit v ''add'']
           = applyMembershipEdits M s rid ms [edit v ''add'']"
  using assms
  by (simp add: applyMembershipEdits_def member_step_def newMembers_def push_member_def edit_def)

subsection \<open>Where the member loop is the fold\<close>

text \<open>
  As long as \<^verbatim>\<open>newMembers\<close> is the array \<^verbatim>\<open>selectedGroup.members\<close>, filtering the one
  is filtering the other. So the loop and the fold of the specification agree on every
  edit list with at most one delete.
\<close>

lemma member_step_spec_edit:
  assumes "own_array st \<noteq> None \<longrightarrow> m_operation m \<noteq> Some ''delete''"
  shows "map_sum (\<lambda>e. e) newMembers (member_step M s rid st m)
           = spec_edit M s rid (newMembers st) m"
  using assms
  by (auto simp: member_step_def spec_edit_def newMembers_def push_member_def Let_def
      split: option.splits)

lemma member_step_add_own:
  "member_step M s rid st m = Inr st' \<Longrightarrow> m_operation m \<noteq> Some ''delete'' \<Longrightarrow>
     own_array st = None \<Longrightarrow> own_array st' = None"
  by (auto simp: member_step_def push_member_def Let_def split: option.splits if_splits)

lemma member_loop_spec_fold:
  assumes "own_array st \<noteq> None \<longrightarrow> (\<forall>m \<in> set edits. m_operation m \<noteq> Some ''delete'')"
      and "length (filter (\<lambda>m. m_operation m = Some ''delete'') edits) \<le> 1"
  shows "map_sum (\<lambda>e. e) newMembers (member_loop M s rid st edits)
           = spec_applyMembershipEdits M s rid (newMembers st) edits"
  using assms
proof (induction edits arbitrary: st)
  case Nil
  then show ?case by simp
next
  case (Cons m ms)
  have step: "map_sum (\<lambda>e. e) newMembers (member_step M s rid st m)
      = spec_edit M s rid (newMembers st) m"
    using Cons.prems(1) by (intro member_step_spec_edit) simp
  show ?case
  proof (cases "member_step M s rid st m")
    case (Inl e)
    with step show ?thesis
      by (cases "spec_edit M s rid (newMembers st) m") simp_all
  next
    case (Inr st')
    with step have spec: "spec_edit M s rid (newMembers st) m = Inr (newMembers st')"
      by simp
    have a: "own_array st' \<noteq> None \<longrightarrow> (\<forall>m \<in> set ms. m_operation m \<noteq> Some ''delete'')"
    proof (cases "m_operation m = Some ''delete''")
      case True
      with Cons.prems(2) have "filter (\<lambda>m. m_operation m = Some ''delete'') ms = []"
        by simp
      then show ?thesis
        by (simp add: filter_empty_conv)
    next
      case False
      show ?thesis
      proof (cases "own_array st")
        case None
        with member_step_add_own [OF Inr False] show ?thesis by simp
      next
        case (Some xs)
        with Cons.prems(1) show ?thesis by simp
      qed
    qed
    have b: "length (filter (\<lambda>m. m_operation m = Some ''delete'') ms) \<le> 1"
      using Cons.prems(2) by (simp split: if_splits)
    from Cons.IH [OF a b] Inr spec show ?thesis
      by simp
  qed
qed

lemma applyMembershipEdits_one_delete:
  assumes "length (filter (\<lambda>m. m_operation m = Some ''delete'') edits) \<le> 1"
  shows "applyMembershipEdits M s rid ms edits = spec_applyMembershipEdits M s rid ms edits"
proof -
  have "map_sum (\<lambda>e. e) newMembers
          (member_loop M s rid \<lparr>selected_members = ms, own_array = None\<rparr> edits)
        = spec_applyMembershipEdits M s rid ms edits"
    using member_loop_spec_fold [of "\<lparr>selected_members = ms, own_array = None\<rparr>" edits M s rid]
      assms by (simp add: newMembers_def)
  then show ?thesis
    by (cases "member_loop M s rid \<lparr>selected_members = ms, own_array = None\<rparr> edits")
       (simp_all add: applyMembershipEdits_def)
qed

subsection \<open>The member loop keeps a list free of duplicates\<close>

lemma member_step_inv:
  "loop_inv st \<Longrightarrow> member_step M s rid st m = Inr st' \<Longrightarrow> loop_inv st'"
  by (auto simp: loop_inv_def member_step_def newMembers_def push_member_def Let_def
      split: option.splits if_splits)

lemma member_loop_inv:
  "loop_inv st \<Longrightarrow> member_loop M s rid st ms = Inr st' \<Longrightarrow> loop_inv st'"
proof (induction ms arbitrary: st)
  case Nil
  then show ?case by simp
next
  case (Cons m ms)
  then show ?case
    by (auto split: sum.splits dest: member_step_inv)
qed

lemma applyMembershipEdits_distinct:
  assumes "distinct ms" and "applyMembershipEdits M s rid ms edits = Inr ms'"
  shows "distinct ms'"
proof -
  from assms(2) obtain st where
    run: "member_loop M s rid \<lparr>selected_members = ms, own_array = None\<rparr> edits = Inr st"
    and ms': "ms' = newMembers st"
    by (auto simp: applyMembershipEdits_def split: sum.splits)
  have "loop_inv \<lparr>selected_members = ms, own_array = None\<rparr>"
    using assms(1) by (simp add: loop_inv_def)
  from member_loop_inv [OF this run] show ?thesis
    by (auto simp: ms' loop_inv_def newMembers_def split: option.splits)
qed

lemma modifyGroup_members_distinct:
  assumes "members_distinct s"
  shows "members_distinct (snd (modifyGroup M s rid attrObj))"
proof (cases "groupSchema_findUnique (Fields (M Outbound [(''id'', Str rid)] map_group)) s")
  case None
  then show ?thesis using assms by (simp add: modifyGroup_def)
next
  case (Some g)
  then have "g \<in> set (groups s)"
    by (auto simp: groupSchema_findUnique_def dest: find_Some_set)
  with assms have d: "distinct (g_members g)"
    by (simp add: members_distinct_def list_all_iff)
  show ?thesis
  proof (cases "applyMembershipEdits M s rid (g_members g) (ga_members attrObj)")
    case (Inl e)
    with Some assms show ?thesis by (simp add: modifyGroup_def)
  next
    case (Inr ms)
    from applyMembershipEdits_distinct [OF d Inr] have "distinct ms" .
    with Some Inr assms show ?thesis
      by (auto simp: modifyGroup_def Let_def split: sum.splits
          dest: groupSchema_update_members_distinct)
  qed
qed

subsection \<open>The prune of deleteUser\<close>

lemma landed_from_all: "landed_from i (\<lambda>i. True) us = us"
  by (induction us arbitrary: i) auto

lemma landed_from_none: "landed_from i (\<lambda>i. False) us = []"
  by (induction us arbitrary: i) auto

lemma landed_from_member: "u \<in> set (landed_from i landed us) \<Longrightarrow> u \<in> set us"
  by (induction us arbitrary: i) (auto split: if_splits)

lemma map_members_ids:
  "map g_id (map (\<lambda>x. if P x then x\<lparr>g_members := ms\<rparr> else x) xs) = map g_id xs"
  by (induction xs) auto

text \<open>One update of the prune, in a store whose group ids are unique.\<close>

lemma land_update_groups:
  assumes "distinct (map g_id (groups t))"
  shows "groups (land_update (Fields [(''id'', Str i)], ms) t)
         = map (\<lambda>x. if g_id x = i then x\<lparr>g_members := ms\<rparr> else x) (groups t)"
proof -
  have m: "group_matches (Fields [(''id'', Str i)]) = (\<lambda>x. g_id x = i)"
    by (rule ext) (rule group_matches_id)
  have f: "(\<lambda>g. \<lparr>g_id = write_id [] (g_id g), g_doc = AList.merge (g_doc g) (AList.delete ''id'' []),
                   g_members = ms\<rparr>) = (\<lambda>x. x\<lparr>g_members := ms\<rparr>)"
    by (rule ext) (simp add: write_id_empty)
  show ?thesis
  proof (cases "find (\<lambda>x. g_id x = i) (groups t)")
    case None
    then have "\<forall>x \<in> set (groups t). g_id x \<noteq> i"
      by (simp add: find_None_iff)
    then have "map (\<lambda>x. if g_id x = i then x\<lparr>g_members := ms\<rparr> else x) (groups t) = groups t"
      by (intro map_idI) simp
    with None show ?thesis
      by (simp add: land_update_def groupSchema_update_def m)
  next
    case (Some g)
    then show ?thesis
      by (simp only: land_update_def fst_conv snd_conv groupSchema_update_def f m
          upd_first_by_key [OF assms]) simp
  qed
qed

lemma land_update_users: "users (land_update u t) = users t"
  by (auto simp: land_update_def split: sum.splits dest: groupSchema_update_users)

lemma fold_land_update_users: "users (fold land_update us t) = users t"
  by (induction us arbitrary: t) (simp_all add: land_update_users)

lemma pruneUser_users: "users (pruneUser landed user s) = users s"
  unfolding pruneUser_def by (rule fold_land_update_users)

text \<open>
  The invariant of the updates, once all of them are carried out: every row that still
  has the id is among the groups whose update is yet to come.
\<close>

lemma prune_fold_removes:
  assumes "distinct (map g_id (groups t))"
      and "\<forall>g \<in> set (groups t). u_id user \<in> set (g_members g) \<longrightarrow> g \<in> set ts"
  shows "\<forall>g \<in> set (groups (fold land_update (map (prune_update user) ts) t)).
           u_id user \<notin> set (g_members g)"
  using assms
proof (induction ts arbitrary: t)
  case Nil
  then show ?case by auto
next
  case (Cons grp ts)
  let ?t = "land_update (prune_update user grp) t"
  have gs: "groups ?t = map (\<lambda>x. if g_id x = g_id grp
              then x\<lparr>g_members := filter (\<lambda>item. item \<noteq> u_id user) (g_members grp)\<rparr> else x)
              (groups t)"
    unfolding prune_update_def using Cons.prems(1) by (rule land_update_groups)
  have ids: "map g_id (groups ?t) = map g_id (groups t)"
    unfolding gs by (rule map_members_ids)
  have d: "distinct (map g_id (groups ?t))"
    using Cons.prems(1) by (simp add: ids)
  have r: "\<forall>g \<in> set (groups ?t). u_id user \<in> set (g_members g) \<longrightarrow> g \<in> set ts"
    unfolding gs using Cons.prems(2) by auto
  from Cons.IH [OF d r] show ?case by simp
qed

lemma pruneUser_removes:
  assumes "distinct (map g_id (groups s))"
  shows "\<forall>g \<in> set (groups (pruneUser (\<lambda>i. True) user s)). u_id user \<notin> set (g_members g)"
  unfolding pruneUser_def prune_updates_def landed_from_all
  by (rule prune_fold_removes [OF assms]) (simp add: groupSchema_findMany_def)

text \<open>
  What the claim about deleting a user says does hold once every update has been carried
  out: in a store whose group ids are unique, no group lists the user then.
\<close>

lemma deleteUser_prunes_when_landed:
  assumes "distinct (map g_id (groups s))"
      and "userSchema_findUnique (Fields (M Outbound [(''userName'', Str rid)] map_user)) s
             = Some user"
  shows "\<exists>s'. deleteUser M (\<lambda>i. True) s rid = (Inr (), s')
            \<and> (\<forall>g \<in> set (groups s'). u_id user \<notin> set (g_members g))
            \<and> listGroupsFor s' (Some (Str (u_id user))) = []"
proof -
  let ?w = "Fields (M Outbound [(''userName'', Str rid)] map_user)"
  let ?p = "pruneUser (\<lambda>i. True) user s"
  have found: "find (user_matches ?w) (users ?p) = Some user"
    using assms(2) by (simp add: userSchema_findUnique_def pruneUser_users)
  let ?s' = "?p\<lparr>users := del_first (user_matches ?w) (users ?p)\<rparr>"
  have run: "deleteUser M (\<lambda>i. True) s rid = (Inr (), ?s')"
    using assms(2) found by (simp add: deleteUser_def deleteUser_delete_def userSchema_delete_def)
  have none: "\<forall>g \<in> set (groups ?s'). u_id user \<notin> set (g_members g)"
    using pruneUser_removes [OF assms(1), of user] by simp
  then have "listGroupsFor ?s' (Some (Str (u_id user))) = []"
    by (simp add: listGroupsFor_def groupSchema_findMany_def filter_empty_conv)
  with run none show ?thesis by blast
qed

text \<open>
  An update of the prune writes a list without duplicates, whenever it is carried out:
  before the promise settles or after it, and on whatever the store is by then.
\<close>

lemma prune_updates_distinct:
  assumes "members_distinct s" and "u \<in> set (prune_updates user s)"
  shows "distinct (snd u)"
  using assms
  by (auto simp: prune_updates_def prune_update_def groupSchema_findMany_def
      members_distinct_def list_all_iff)

lemma land_update_members_distinct:
  "members_distinct t \<Longrightarrow> distinct (snd u) \<Longrightarrow> members_distinct (land_update u t)"
  by (auto simp: land_update_def split: sum.splits dest: groupSchema_update_members_distinct)

lemma fold_land_update_members_distinct:
  "members_distinct t \<Longrightarrow> \<forall>u \<in> set us. distinct (snd u) \<Longrightarrow>
     members_distinct (fold land_update us t)"
  by (induction us arbitrary: t) (simp_all add: land_update_members_distinct)

lemma pruneUser_members_distinct:
  assumes "members_distinct s"
  shows "members_distinct (pruneUser landed user s)"
proof -
  have "\<forall>u \<in> set (landed_from 0 landed (prune_updates user s)). distinct (snd u)"
    by (auto dest!: landed_from_member intro: prune_updates_distinct [OF assms])
  with assms show ?thesis
    unfolding pruneUser_def by (rule fold_land_update_members_distinct)
qed

lemma pending_update_members_distinct:
  assumes "members_distinct s" and "u \<in> set (pending_updates landed user s)"
      and "members_distinct t"
  shows "members_distinct (land_update u t)"
proof -
  from assms(2) have "u \<in> set (prune_updates user s)"
    unfolding pending_updates_def by (rule landed_from_member)
  from prune_updates_distinct [OF assms(1) this] assms(3) show ?thesis
    by (simp add: land_update_members_distinct)
qed

lemma deleteUser_members_distinct:
  assumes "members_distinct s"
  shows "members_distinct (snd (deleteUser M landed s rid))"
proof (cases "userSchema_findUnique (Fields (M Outbound [(''userName'', Str rid)] map_user)) s")
  case None
  then show ?thesis using assms by (simp add: deleteUser_def)
next
  case (Some user)
  have "members_distinct (pruneUser landed user s)"
    using assms by (rule pruneUser_members_distinct)
  then have "members_distinct (snd (deleteUser_delete M rid (pruneUser landed user s)))"
    by (auto simp: deleteUser_delete_def userSchema_delete_def members_distinct_def
        split: option.splits sum.splits)
  with Some show ?thesis by (simp add: deleteUser_def)
qed

subsection \<open>The other writes\<close>

lemma createGroup_members_distinct:
  "members_distinct s \<Longrightarrow> members_distinct (snd (createGroup M newid s groupObj))"
  by (auto simp: createGroup_def groupSchema_create_def members_distinct_def Let_def)

lemma deleteGroup_members_distinct:
  "members_distinct s \<Longrightarrow> members_distinct (snd (deleteGroup M s rid))"
  by (auto simp: deleteGroup_def deleteGroup_delete_def groupSchema_delete_def
      members_distinct_def list_all_del_first split: option.splits)

lemma createUser_groups: "groups (snd (createUser M newid s userObj)) = groups s"
  by (auto simp: createUser_def userSchema_create_def Let_def)

lemma modifyUser_groups: "groups (snd (modifyUser M s rid attrObj)) = groups s"
  by (auto simp: modifyUser_def userSchema_update_def Let_def split: option.splits)

subsection \<open>The reads on the sample store\<close>

lemma getGroups_sample_all:
  "map (group_resource endpointMapper sample) (groups sample) = [eng_resource]"
  by (simp add: group_resource_def user_entry_def eng_resource_def sample_defs mapper_defs
      store_defs)

text \<open>\<^verbatim>\<open>getGroups\<close> has no \<^verbatim>\<open>throw\<close> of its own: it returns a result for every filter.\<close>

lemma getGroups_returns: "\<exists>rs. getGroups M s g = Inr rs"
  by (simp add: getGroups_def)

text \<open>What \<^verbatim>\<open>getUsers\<close> does with a filter it does not support: it throws.\<close>

lemma getUsers_rejects_unsupported:
  assumes "\<not> (operator g = Some ''eq'' \<and>
              attribute g \<in> {Some ''id'', Some ''userName'', Some ''externalId''})"
      and "truthy (operator g) \<or> truthy (rawFilter g)"
  shows "\<exists>msg. getUsers M s g = Inl (Error msg)"
  using assms by (auto simp: getUsers_def getUsers_filter_def)

text \<open>
  Every filter that is not an equality on \<^verbatim>\<open>id\<close>, \<^verbatim>\<open>displayName\<close> or
  \<^verbatim>\<open>externalId\<close> falls through the empty branches of \<^verbatim>\<open>getGroups\<close>: \<^verbatim>\<open>filter\<close>
  stays undefined and every stored group is returned.
\<close>

lemma getGroups_falls_through:
  assumes "\<not> (operator g = Some ''eq'' \<and>
              attribute g \<in> {Some ''id'', Some ''displayName'', Some ''externalId''})"
  shows "getGroups_filter M g = None
       \<and> getGroups M s g = Inr (map (group_resource M s) (groups s))"
  using assms by (auto simp: getGroups_def getGroups_filter_def groupSchema_findMany_def)

text \<open>
  A lookup of a group by its \<^verbatim>\<open>displayName\<close> tests the column \<^verbatim>\<open>id\<close>: the group named
  \<^verbatim>\<open>eng\<close> is not found by its name.
\<close>

lemma getGroups_displayName_lookup_tests_id:
  "getGroups endpointMapper sample (eq_filter ''displayName'' ''eng'') = Inr []"
  by (simp add: getGroups_def getGroups_filter_def truthy_def sample_defs mapper_defs store_defs)

section \<open>The claims\<close>

subsection \<open>The member loop against the fold\<close>

text \<open>
  C1. The claim: for edits that all resolve, the member loop of \<^verbatim>\<open>modifyGroup\<close> returns
  the fold of the edits, in input order, over the group's current member list. The loop
  does not: a delete edit filters \<^verbatim>\<open>selectedGroup.members\<close>, not the working list
  \<^verbatim>\<open>newMembers\<close>, so a second delete starts again from the stored list and the first
  delete is lost. On the group with members u1 and u2, deleting alice (u1) and then bob
  (u2) leaves u1 in the list the loop returns, where the fold returns the empty list.
  With at most one delete among the edits the loop is the fold
  (\<open>applyMembershipEdits_one_delete\<close>).
\<close>

theorem applyMembershipEdits_second_delete_restarts:
  "applyMembershipEdits endpointMapper sample ''g1'' [''u1'', ''u2'']
       [edit ''alice'' ''delete'', edit ''bob'' ''delete''] = Inr [''u1'']
   \<and> spec_applyMembershipEdits endpointMapper sample ''g1'' [''u1'', ''u2'']
       [edit ''alice'' ''delete'', edit ''bob'' ''delete''] = Inr []
   \<and> modifyGroup endpointMapper sample ''g1''
         \<lparr>ga_attrs = [], ga_members = [edit ''alice'' ''delete'', edit ''bob'' ''delete'']\<rparr>
       = (Inr (), \<lparr>users = [alice, bob], groups = [eng\<lparr>g_members := [''u1'']\<rparr>]\<rparr>)"
  by (simp add: sample_defs mapper_defs store_defs modifyGroup_def groupSchema_update_def
      write_id_def applyMembershipEdits_def member_step_def newMembers_def push_member_def
      spec_edit_def)

subsection \<open>Deleting a user\<close>

text \<open>
  C2. The claim: after \<^verbatim>\<open>deleteUser\<close> has completed successfully, no group's
  \<^verbatim>\<open>members\<close> holds the user's internal id and the membership query of \<^verbatim>\<open>getUsers\<close>
  for that id returns no group. The code does not wait for the updates that take the id
  out: \<^verbatim>\<open>await groups?.forEach(...)\<close> awaits \<^verbatim>\<open>undefined\<close>. On the sample store, when
  the update of the group has not been carried out by the time the delete resolves,
  \<^verbatim>\<open>deleteUser\<close> of alice succeeds while the group still lists u1, the membership query
  for u1 returns the group, and the update is still pending. Once every update has been
  carried out, what the claim says holds (\<open>deleteUser_prunes_when_landed\<close>).
\<close>

theorem deleteUser_resolves_before_prune:
  "deleteUser endpointMapper (\<lambda>i. False) sample ''alice''
     = (Inr (), \<lparr>users = [bob], groups = [eng]\<rparr>)
   \<and> listGroupsFor \<lparr>users = [bob], groups = [eng]\<rparr> (Some (Str ''u1'')) = [eng]
   \<and> pending_updates (\<lambda>i. False) alice sample = [(Fields [(''id'', Str ''g1'')], [''u2''])]"
  by (simp add: deleteUser_def deleteUser_delete_def pruneUser_def pending_updates_def
      prune_updates_def prune_update_def userSchema_delete_def listGroupsFor_def
      sample_defs mapper_defs store_defs)

subsection \<open>Adding a member twice\<close>

text \<open>
  C3. For a group that exists and a user that exists, \<^verbatim>\<open>modifyGroup\<close> with the edit
  \<^verbatim>\<open>{value: v, operation: "add"}\<close> succeeds, and so does the same call made again; the
  second call leaves every member list as the first left it, the group's being its old
  list with the user's id appended unless it was there. One call that carries the edit
  twice does what the call that carries it once does. The mapper is the one modelled from
  the specification.
\<close>

theorem modifyGroup_add_idempotent:
  assumes grp: "groupSchema_findUnique
                  (Fields (endpointMapper Outbound [(''id'', Str rid)] map_group)) s = Some grp"
      and usr: "userSchema_findFirst
                  (Fields (endpointMapper Outbound [(''userName'', Str v)] map_user)) s = Some user"
  shows "\<exists>s1 s2 grp1.
           modifyGroup endpointMapper s rid \<lparr>ga_attrs = attrs, ga_members = [edit v ''add'']\<rparr>
             = (Inr (), s1)
         \<and> modifyGroup endpointMapper s1 rid \<lparr>ga_attrs = attrs, ga_members = [edit v ''add'']\<rparr>
             = (Inr (), s2)
         \<and> groupSchema_findUnique
             (Fields (endpointMapper Outbound [(''id'', Str rid)] map_group)) s1 = Some grp1
         \<and> g_members grp1 = (if u_id user \<in> set (g_members grp) then g_members grp
                              else g_members grp @ [u_id user])
         \<and> map g_members (groups s2) = map g_members (groups s1)
         \<and> modifyGroup endpointMapper s rid
               \<lparr>ga_attrs = attrs, ga_members = [edit v ''add'', edit v ''add'']\<rparr>
             = (Inr (), s1)"
proof -
  define w where "w = Fields (endpointMapper Outbound [(''id'', Str rid)] map_group)"
  define data where "data = AList.delete ''id'' (endpointMapper Outbound attrs map_group)"
  define ms where "ms = (if u_id user \<in> set (g_members grp) then g_members grp
                         else g_members grp @ [u_id user])"
  define f :: "group_row \<Rightarrow> group_row"
    where "f = (\<lambda>g. \<lparr>g_id = write_id data (g_id g),
                      g_doc = AList.merge (g_doc g) (AList.delete ''id'' data),
                      g_members = ms\<rparr>)"
  define s1 where "s1 = s\<lparr>groups := upd_first (group_matches w) f (groups s)\<rparr>"
  define s2 where "s2 = s1\<lparr>groups := upd_first (group_matches w) f (groups s1)\<rparr>"
  have w: "w = Fields [(''id'', Str rid)]"
    by (simp add: w_def outbound_id)
  have found: "find (group_matches w) (groups s) = Some grp"
    using grp by (simp add: w_def groupSchema_findUnique_def)
  have gid: "g_id grp = rid"
    using find_Some_set [OF found] by (simp only: w group_matches_id)
  have usr1: "userSchema_findFirst
      (Fields (endpointMapper Outbound [(''userName'', Str v)] map_user)) s1 = Some user"
    using usr by (simp add: userSchema_findFirst_def s1_def)
  have in_ms: "u_id user \<in> set ms"
    by (simp add: ms_def)
  have once: "applyMembershipEdits endpointMapper s rid (g_members grp) [edit v ''add''] = Inr ms"
    unfolding ms_def using usr by (rule add_once)
  have twice: "applyMembershipEdits endpointMapper s rid (g_members grp)
      [edit v ''add'', edit v ''add''] = Inr ms"
    using add_twice [where M = endpointMapper, OF usr] once by simp
  have again: "applyMembershipEdits endpointMapper s1 rid ms [edit v ''add''] = Inr ms"
    using add_once [where M = endpointMapper, OF usr1, of rid ms] in_ms by simp
  have upd: "groupSchema_update w data ms s = Inr s1"
    unfolding s1_def f_def using found by (rule groupSchema_update_run)
  have run1: "modifyGroup endpointMapper s rid
      \<lparr>ga_attrs = attrs, ga_members = [edit v ''add'']\<rparr> = (Inr (), s1)"
    using grp once upd unfolding w_def data_def by (intro modifyGroup_run) simp_all
  have run11: "modifyGroup endpointMapper s rid
      \<lparr>ga_attrs = attrs, ga_members = [edit v ''add'', edit v ''add'']\<rparr> = (Inr (), s1)"
    using grp twice upd unfolding w_def data_def by (intro modifyGroup_run) simp_all
  have "write_id data rid = rid"
    unfolding data_def by (rule write_id_stripped)
  then have "group_matches w (f grp)"
    by (simp add: w group_matches_id gid f_def del: group_matches.simps)
  with found have found1: "find (group_matches w) (groups s1) = Some (f grp)"
    by (simp add: find_upd_first s1_def)
  have look: "groupSchema_findUnique w s1 = Some (f grp)"
    using found1 by (simp add: groupSchema_findUnique_def)
  have mem: "g_members (f grp) = ms"
    by (simp add: f_def)
  have upd1: "groupSchema_update w data ms s1 = Inr s2"
    unfolding s2_def f_def using found1 by (rule groupSchema_update_run)
  have run2: "modifyGroup endpointMapper s1 rid
      \<lparr>ga_attrs = attrs, ga_members = [edit v ''add'']\<rparr> = (Inr (), s2)"
    using look again upd1 unfolding w_def data_def mem [symmetric]
    by (intro modifyGroup_run) simp_all
  have "g_members (f (f grp)) = g_members (f grp)"
    by (simp add: f_def)
  from map_upd_first_same [where h = g_members and f = f, OF found1 this]
  have same: "map g_members (groups s2) = map g_members (groups s1)"
    by (simp add: s2_def)
  from run1 run2 look mem same run11 show ?thesis
    unfolding w_def ms_def by blast
qed

theorem modifyGroup_add_idempotent_witness:
  "groupSchema_findUnique (Fields (endpointMapper Outbound [(''id'', Str ''g1'')] map_group)) scenario
     = Some (eng\<lparr>g_members := []\<rparr>)
   \<and> userSchema_findFirst (Fields (endpointMapper Outbound [(''userName'', Str ''alice'')] map_user))
       scenario = Some alice
   \<and> modifyGroup endpointMapper scenario ''g1'' \<lparr>ga_attrs = [], ga_members = [edit ''alice'' ''add'']\<rparr>
       = (Inr (), \<lparr>users = [alice, bob], groups = [eng\<lparr>g_members := [''u1'']\<rparr>]\<rparr>)
   \<and> modifyGroup endpointMapper \<lparr>users = [alice, bob], groups = [eng\<lparr>g_members := [''u1'']\<rparr>]\<rparr> ''g1''
         \<lparr>ga_attrs = [], ga_members = [edit ''alice'' ''add'']\<rparr>
       = (Inr (), \<lparr>users = [alice, bob], groups = [eng\<lparr>g_members := [''u1'']\<rparr>]\<rparr>)"
proof -
  have grp: "groupSchema_findUnique
      (Fields (endpointMapper Outbound [(''id'', Str ''g1'')] map_group)) scenario
        = Some (eng\<lparr>g_members := []\<rparr>)"
    by (simp add: sample_defs mapper_defs store_defs)
  have usr: "userSchema_findFirst
      (Fields (endpointMapper Outbound [(''userName'', Str ''alice'')] map_user)) scenario = Some alice"
    by (simp add: sample_defs mapper_defs store_defs)
  have run1: "modifyGroup endpointMapper scenario ''g1''
      \<lparr>ga_attrs = [], ga_members = [edit ''alice'' ''add'']\<rparr>
        = (Inr (), \<lparr>users = [alice, bob], groups = [eng\<lparr>g_members := [''u1'']\<rparr>]\<rparr>)"
    by (simp add: modifyGroup_def applyMembershipEdits_def member_step_def newMembers_def
        push_member_def groupSchema_update_def write_id_def sample_defs mapper_defs store_defs)
  have run2: "modifyGroup endpointMapper
      \<lparr>users = [alice, bob], groups = [eng\<lparr>g_members := [''u1'']\<rparr>]\<rparr> ''g1''
      \<lparr>ga_attrs = [], ga_members = [edit ''alice'' ''add'']\<rparr>
        = (Inr (), \<lparr>users = [alice, bob], groups = [eng\<lparr>g_members := [''u1'']\<rparr>]\<rparr>)"
    by (simp add: modifyGroup_def applyMembershipEdits_def member_step_def newMembers_def
        push_member_def groupSchema_update_def write_id_def sample_defs mapper_defs store_defs)
  show ?thesis
    using grp usr run1 run2 modifyGroup_add_idempotent [OF grp usr, of "[]"]
    by simp
qed

subsection \<open>Member lists stay free of duplicates\<close>

text \<open>
  C4. If no group's \<^verbatim>\<open>members\<close> holds an id twice, then none does after any of the
  six operations that write: \<^verbatim>\<open>createUser\<close>, \<^verbatim>\<open>modifyUser\<close>, \<^verbatim>\<open>deleteUser\<close> with its
  prune, \<^verbatim>\<open>createGroup\<close>, \<^verbatim>\<open>modifyGroup\<close> with its member edits and \<^verbatim>\<open>deleteGroup\<close>,
  whether they succeed or fail. For \<^verbatim>\<open>deleteUser\<close> this is so whichever updates of the
  prune have been carried out when it settles, and an update carried out later keeps it
  so (\<open>pending_update_members_distinct\<close>). The two reads, \<^verbatim>\<open>getUsers\<close> and
  \<^verbatim>\<open>getGroups\<close>, make no store call that writes: they are functions of the store that
  return no new store.
\<close>

theorem operations_preserve_members_distinct:
  assumes "members_distinct s"
  shows "members_distinct (snd (createUser M newid s userObj))
       \<and> members_distinct (snd (modifyUser M s rid attrObj))
       \<and> members_distinct (snd (deleteUser M landed s rid))
       \<and> members_distinct (snd (createGroup M newid s groupObj))
       \<and> members_distinct (snd (modifyGroup M s rid gattrObj))
       \<and> members_distinct (snd (deleteGroup M s rid))"
proof -
  have "members_distinct (snd (createUser M newid s userObj))"
    using assms by (simp add: members_distinct_def createUser_groups)
  moreover have "members_distinct (snd (modifyUser M s rid attrObj))"
    using assms by (simp add: members_distinct_def modifyUser_groups)
  ultimately show ?thesis
    using assms deleteUser_members_distinct createGroup_members_distinct
      modifyGroup_members_distinct deleteGroup_members_distinct by blast
qed

theorem operations_preserve_members_distinct_witness:
  "members_distinct sample
   \<and> members_distinct (snd (deleteUser endpointMapper (\<lambda>i. True) sample ''alice''))
   \<and> members_distinct (snd (modifyGroup endpointMapper sample ''g1''
        \<lparr>ga_attrs = [], ga_members = [edit ''alice'' ''delete'', edit ''alice'' ''add'']\<rparr>))
   \<and> snd (modifyGroup endpointMapper sample ''g1''
        \<lparr>ga_attrs = [], ga_members = [edit ''alice'' ''delete'', edit ''alice'' ''add'']\<rparr>)
       = \<lparr>users = [alice, bob], groups = [eng\<lparr>g_members := [''u2'', ''u1'']\<rparr>]\<rparr>"
proof -
  have inv: "members_distinct sample"
    by (simp add: members_distinct_def sample_defs)
  have run: "snd (modifyGroup endpointMapper sample ''g1''
        \<lparr>ga_attrs = [], ga_members = [edit ''alice'' ''delete'', edit ''alice'' ''add'']\<rparr>)
       = \<lparr>users = [alice, bob], groups = [eng\<lparr>g_members := [''u2'', ''u1'']\<rparr>]\<rparr>"
    by (simp add: modifyGroup_def applyMembershipEdits_def member_step_def newMembers_def
        push_member_def groupSchema_update_def write_id_def sample_defs mapper_defs store_defs)
  show ?thesis
    using inv run
      operations_preserve_members_distinct [OF inv,
        where M = endpointMapper and rid = "''alice''" and landed = "\<lambda>i. True"]
      operations_preserve_members_distinct [OF inv,
        where M = endpointMapper and rid = "''g1''" and gattrObj =
          "\<lparr>ga_attrs = [], ga_members = [edit ''alice'' ''delete'', edit ''alice'' ''add'']\<rparr>"]
    by simp
qed

subsection \<open>Filters that are not supported\<close>

text \<open>
  C5. The claim: in both reads, a filter other than equality on \<^verbatim>\<open>id\<close>, the primary
  name or \<^verbatim>\<open>externalId\<close> fails with an unsupported-filter error and the store is not
  queried. \<^verbatim>\<open>getUsers\<close> does so (\<open>getUsers_rejects_unsupported\<close>). \<^verbatim>\<open>getGroups\<close> has
  the same branches, left empty (\<open>getGroups_returns\<close>): for \<^verbatim>\<open>displayName co "en"\<close> it
  throws nothing, leaves \<^verbatim>\<open>filter\<close> undefined, queries the store and returns every
  group, as a call with no filter does.
\<close>

theorem getGroups_unsupported_filter_lists_all:
  "getGroups endpointMapper sample contains_filter = Inr [eng_resource]
   \<and> getGroups endpointMapper sample contains_filter = getGroups endpointMapper sample no_filter"
  by (simp add: getGroups_def getGroups_filter_def truthy_def contains_filter_def no_filter_def
      groupSchema_findMany_def getGroups_sample_all)

subsection \<open>The filter on members\<close>

text \<open>
  C6. The claim: \<^verbatim>\<open>getGroups\<close> with \<^verbatim>\<open>members.value eq X\<close> returns an empty result set
  and never queries membership. The branch of this shape is empty, under the comment
  that it is to return the groups the user is a member of, and it falls through like
  the branches of the filters that are not supported (\<open>getGroups_falls_through\<close>): on
  the sample store the call for u9, an id that no group lists, returns the group, where
  the claim and the comment of the branch both have the empty result.
\<close>

theorem getGroups_members_filter_not_empty:
  "getGroups endpointMapper sample (eq_filter ''members.value'' ''u9'') = Inr [eng_resource]
   \<and> getGroups endpointMapper sample (eq_filter ''members.value'' ''u9'') \<noteq> Inr []"
  by (simp add: getGroups_def getGroups_filter_def truthy_def eq_filter_def
      groupSchema_findMany_def getGroups_sample_all)

subsection \<open>The predicate of a unique lookup\<close>

text \<open>
  C7. The claim: the predicate of a unique lookup is the outbound mapping of the
  primary-name attribute, \<^verbatim>\<open>{userName: value}\<close> for users and \<^verbatim>\<open>{displayName: value}\<close>
  for groups. For groups it is not: a lookup by \<^verbatim>\<open>id eq "g1"\<close> maps \<^verbatim>\<open>{id: value}\<close>
  (line 351), as the lookups of \<^verbatim>\<open>deleteGroup\<close> and \<^verbatim>\<open>modifyGroup\<close> do, and finds the
  group whose id is g1; the mapping of \<^verbatim>\<open>{displayName: "g1"}\<close> would test the column
  \<^verbatim>\<open>name\<close>.
\<close>

theorem getGroups_lookup_by_id_maps_id:
  "getGroups_filter endpointMapper (eq_filter ''id'' ''g1'') = Some [(''id'', Str ''g1'')]
   \<and> endpointMapper Outbound [(''displayName'', Str ''g1'')] map_group = [(''name'', Str ''g1'')]
   \<and> getGroups_filter endpointMapper (eq_filter ''id'' ''g1'')
       \<noteq> Some (endpointMapper Outbound [(''displayName'', Str ''g1'')] map_group)
   \<and> getGroups endpointMapper sample (eq_filter ''id'' ''g1'') = Inr [eng_resource]"
  by (simp add: getGroups_def getGroups_filter_def truthy_def eq_filter_def
      groupSchema_findMany_def group_resource_def user_entry_def userSchema_findMany_def
      eng_resource_def sample_def alice_def bob_def eng_def mapper_defs matches_fields_def
      user_obj_def group_obj_def)

text \<open>
  C7, amended. For the operator \<^verbatim>\<open>eq\<close>, the predicate of a lookup of users by \<^verbatim>\<open>id\<close>,
  \<^verbatim>\<open>userName\<close> or \<^verbatim>\<open>externalId\<close> is the outbound mapping of \<^verbatim>\<open>{userName: value}\<close>, and
  the predicate of a lookup of groups by \<^verbatim>\<open>id\<close> is the outbound mapping of
  \<^verbatim>\<open>{id: value}\<close>; the rows returned are those whose columns equal it. Nothing is said
  of a lookup of groups by \<^verbatim>\<open>displayName\<close> or \<^verbatim>\<open>externalId\<close>.
\<close>

theorem unique_lookup_predicate:
  assumes "operator g = Some ''eq''"
  shows "(attribute g \<in> {Some ''id'', Some ''userName'', Some ''externalId''} \<longrightarrow>
            getUsers_filter M g
              = Inr (Some (M Outbound [(''userName'', Str (filter_value g))] map_user))
          \<and> getUsers M s g = Inr (map (user_resource M s)
               (filter (\<lambda>u. matches_fields
                   (M Outbound [(''userName'', Str (filter_value g))] map_user) (user_obj u))
                 (users s))))
       \<and> (attribute g = Some ''id'' \<longrightarrow>
            getGroups_filter M g = Some (M Outbound [(''id'', Str (filter_value g))] map_group)
          \<and> getGroups M s g = Inr (map (group_resource M s)
               (filter (\<lambda>x. matches_fields
                   (M Outbound [(''id'', Str (filter_value g))] map_group) (group_obj x))
                 (groups s))))"
proof -
  have t: "truthy (operator g)"
    using assms by (simp add: truthy_def)
  have u: "attribute g \<in> {Some ''id'', Some ''userName'', Some ''externalId''} \<Longrightarrow>
      getUsers_filter M g = Inr (Some (M Outbound [(''userName'', Str (filter_value g))] map_user))"
    using assms t by (simp add: getUsers_filter_def)
  have v: "attribute g = Some ''id'' \<Longrightarrow>
      getGroups_filter M g = Some (M Outbound [(''id'', Str (filter_value g))] map_group)"
    using assms t by (simp add: getGroups_filter_def)
  have um: "user_matches (Fields w) = (\<lambda>u. matches_fields w (user_obj u))" for w
    by (rule ext) simp
  have gm: "group_matches (Fields w) = (\<lambda>x. matches_fields w (group_obj x))" for w
    by (rule ext) simp
  show ?thesis
    using u v
    by (simp add: getUsers_def getGroups_def userSchema_findMany_def groupSchema_findMany_def
        um gm)
qed

theorem unique_lookup_predicate_witness:
  "operator (eq_filter ''externalId'' ''alice'') = Some ''eq''
   \<and> getUsers_filter endpointMapper (eq_filter ''externalId'' ''alice'')
       = Inr (Some [(''username'', Str ''alice'')])
   \<and> operator (eq_filter ''id'' ''g1'') = Some ''eq''
   \<and> attribute (eq_filter ''id'' ''g1'') = Some ''id''
   \<and> getGroups_filter endpointMapper (eq_filter ''id'' ''g1'') = Some [(''id'', Str ''g1'')]
   \<and> getGroups endpointMapper sample (eq_filter ''id'' ''g1'') = Inr [eng_resource]"
proof -
  have a: "operator (eq_filter ''externalId'' ''alice'') = Some ''eq''"
    by (simp add: eq_filter_def)
  have b: "operator (eq_filter ''id'' ''g1'') = Some ''eq''"
    by (simp add: eq_filter_def)
  have c: "attribute (eq_filter ''externalId'' ''alice'') = Some ''externalId''"
    by (simp add: eq_filter_def)
  have d: "attribute (eq_filter ''id'' ''g1'') = Some ''id''"
    by (simp add: eq_filter_def)
  have e: "filter_value (eq_filter a v) = v" for a v
    by (simp add: eq_filter_def)
  show ?thesis
    using a b unique_lookup_predicate [OF a, of endpointMapper sample]
      unique_lookup_predicate [OF b, of endpointMapper sample]
    by (simp add: c d e mapper_defs matches_fields_def group_obj_def group_resource_def
        user_entry_def userSchema_findMany_def user_obj_def eng_resource_def sample_def
        alice_def bob_def eng_def)
qed

subsection \<open>Not found\<close>

text \<open>
  C8. When the lookup by the primary identifier finds no record, \<^verbatim>\<open>deleteUser\<close>
  (no update is issued then, whatever \<open>landed\<close> is),
  \<^verbatim>\<open>modifyUser\<close>, \<^verbatim>\<open>deleteGroup\<close> and \<^verbatim>\<open>modifyGroup\<close> fail with the not-found error and
  leave the store as it was. The delete call of \<^verbatim>\<open>deleteUser\<close> and of \<^verbatim>\<open>deleteGroup\<close>,
  made on a store that no longer has the record, fails with the same error; and the
  handler of either turns any store error of code \<^verbatim>\<open>P2025\<close> into it.
\<close>

theorem not_found_before_mutation:
  "(userSchema_findUnique (Fields (M Outbound [(''userName'', Str rid)] map_user)) s = None \<longrightarrow>
       deleteUser M landed s rid = (Inl (Error (''User '' @ rid @ '' not found'')), s)
     \<and> modifyUser M s rid attrObj = (Inl (Error (''User '' @ rid @ '' not found'')), s)
     \<and> deleteUser_delete M rid s = (Inl (Error (''User '' @ rid @ '' not found'')), s))
 \<and> (groupSchema_findUnique (Fields (M Outbound [(''id'', Str rid)] map_group)) s = None \<longrightarrow>
       deleteGroup M s rid = (Inl (Error (''Group '' @ rid @ '' not found'')), s)
     \<and> modifyGroup M s rid gattrObj = (Inl (Error (''Group '' @ rid @ '' not found'')), s)
     \<and> deleteGroup_delete M rid s = (Inl (Error (''Group '' @ rid @ '' not found'')), s))
 \<and> (code err = ''P2025'' \<longrightarrow>
       deleteUser_catch rid err = Error (''User '' @ rid @ '' not found'')
     \<and> deleteGroup_catch rid err = Error (''Group '' @ rid @ '' not found''))"
  by (simp add: deleteUser_def modifyUser_def deleteUser_delete_def deleteGroup_def
      modifyGroup_def deleteGroup_delete_def deleteUser_catch_def deleteGroup_catch_def
      userSchema_delete_def groupSchema_delete_def userSchema_findUnique_def
      groupSchema_findUnique_def P2025_def)

theorem not_found_before_mutation_witness:
  "userSchema_findUnique (Fields (endpointMapper Outbound [(''userName'', Str ''carol'')] map_user))
       sample = None
   \<and> groupSchema_findUnique (Fields (endpointMapper Outbound [(''id'', Str ''carol'')] map_group))
       sample = None
   \<and> code P2025 = ''P2025''
   \<and> deleteUser endpointMapper (\<lambda>i. True) sample ''carol'' = (Inl (Error ''User carol not found''), sample)
   \<and> modifyUser endpointMapper sample ''carol'' [(''active'', Bool False)]
       = (Inl (Error ''User carol not found''), sample)
   \<and> deleteUser_delete endpointMapper ''carol'' sample
       = (Inl (Error ''User carol not found''), sample)
   \<and> deleteGroup endpointMapper sample ''carol'' = (Inl (Error ''Group carol not found''), sample)
   \<and> modifyGroup endpointMapper sample ''carol''
         \<lparr>ga_attrs = [], ga_members = [edit ''alice'' ''add'']\<rparr>
       = (Inl (Error ''Group carol not found''), sample)
   \<and> deleteGroup_delete endpointMapper ''carol'' sample
       = (Inl (Error ''Group carol not found''), sample)
   \<and> deleteUser_catch ''carol'' P2025 = Error ''User carol not found''
   \<and> deleteGroup_catch ''carol'' P2025 = Error ''Group carol not found''"
proof -
  have u: "userSchema_findUnique
      (Fields (endpointMapper Outbound [(''userName'', Str ''carol'')] map_user)) sample = None"
    by (simp add: sample_defs mapper_defs store_defs)
  have g: "groupSchema_findUnique
      (Fields (endpointMapper Outbound [(''id'', Str ''carol'')] map_group)) sample = None"
    by (simp add: sample_defs mapper_defs store_defs)
  have c: "code P2025 = ''P2025''"
    by (simp add: P2025_def)
  show ?thesis
    using u g c
      not_found_before_mutation [where M = endpointMapper and rid = "''carol''" and s = sample
        and landed = "\<lambda>i. True" and attrObj = "[(''active'', Bool False)]"
        and gattrObj = "\<lparr>ga_attrs = [], ga_members = [edit ''alice'' ''add'']\<rparr>"
        and err = P2025]
    by simp
qed

subsection \<open>The id of a returned user\<close>

text \<open>
  C9. Every user that \<^verbatim>\<open>getUsers\<close> returns has its \<^verbatim>\<open>id\<close> overwritten with its
  \<^verbatim>\<open>userName\<close> (line 132): in each returned resource the two attributes read the same,
  and what they read is the \<^verbatim>\<open>userName\<close> that the mapper gives a stored row.
\<close>

theorem getUsers_id_is_userName:
  "getUsers M s g = Inr rs \<Longrightarrow> r \<in> set rs \<Longrightarrow>
     map_of (r_attrs r) ''id'' = map_of (r_attrs r) ''userName''
   \<and> (\<exists>row \<in> set (users s).
         map_of (r_attrs r) ''id'' = map_of (M Inbound (user_obj row) map_user) ''userName'')"
proof -
  assume run: "getUsers M s g = Inr rs" and mem: "r \<in> set rs"
  from run obtain f where
    rs: "rs = map (user_resource M s) (userSchema_findMany (Some (Fields f)) s)"
    by (auto simp: getUsers_def split: sum.splits option.splits)
  with mem obtain row where
    row: "row \<in> set (users s)" and r: "r = user_resource M s row"
    by (auto simp: userSchema_findMany_def)
  have "map_of (r_attrs r) ''id'' = map_of (M Inbound (user_obj row) map_user) ''userName''"
    by (simp add: r user_resource_def Let_def map_of_set_attr)
  moreover have "map_of (r_attrs r) ''userName''
      = map_of (M Inbound (user_obj row) map_user) ''userName''"
    by (simp add: r user_resource_def Let_def map_of_set_attr)
  ultimately show ?thesis
    using row by auto
qed

theorem getUsers_id_is_userName_witness:
  "getUsers endpointMapper sample (eq_filter ''userName'' ''alice'') =
     Inr [\<lparr>r_attrs = [(''id'', Str ''alice''), (''userName'', Str ''alice'')],
           r_refs = [\<lparr>e_value = Some (Str ''g1''), e_display = Some (Str ''eng'')\<rparr>]\<rparr>]
   \<and> map_of [(''id'', Str ''alice''), (''userName'', Str ''alice'')] ''id''
     = map_of [(''id'', Str ''alice''), (''userName'', Str ''alice'')] ''userName''"
proof -
  let ?r = "\<lparr>r_attrs = [(''id'', Str ''alice''), (''userName'', Str ''alice'')],
             r_refs = [\<lparr>e_value = Some (Str ''g1''), e_display = Some (Str ''eng'')\<rparr>]\<rparr>"
  have run: "getUsers endpointMapper sample (eq_filter ''userName'' ''alice'') = Inr [?r]"
    by (simp add: getUsers_def getUsers_filter_def truthy_def user_resource_def
        listGroupsFor_def group_entry_def set_attr_def sample_defs mapper_defs store_defs)
  have mem: "?r \<in> set [?r]"
    by simp
  show ?thesis
    using run getUsers_id_is_userName [OF run mem] by simp
qed

subsection \<open>The members of a returned group\<close>

text \<open>
  C10. \<^verbatim>\<open>getGroups\<close> never fails, and the \<^verbatim>\<open>members\<close> it attaches to a group are the
  entries of the users that \<^verbatim>\<open>{id: {in: members}}\<close> finds: in a store whose user ids are
  unique, one user, hence one entry, for each id of the stored list that is the id of a
  user, and none for an id that is no user's.
\<close>

theorem getGroups_members_resolved:
  assumes "distinct (map u_id (users s))"
  shows "getGroups M s g = Inr (map (group_resource M s)
            (groupSchema_findMany (map_option Fields (getGroups_filter M g)) s))
     \<and> (\<forall>row. let found = filter (\<lambda>u. u_id u \<in> set (g_members row)) (users s) in
           r_refs (group_resource M s row) = map (user_entry M) found
         \<and> distinct (map u_id found)
         \<and> set (map u_id found) = {i \<in> set (g_members row). \<exists>u \<in> set (users s). u_id u = i}
         \<and> length (r_refs (group_resource M s row))
             = card {i \<in> set (g_members row). \<exists>u \<in> set (users s). u_id u = i})"
proof -
  have "distinct (map u_id (filter (\<lambda>u. u_id u \<in> set ms) (users s)))" for ms
    using assms by (rule distinct_map_filter)
  moreover have "set (map u_id (filter (\<lambda>u. u_id u \<in> set ms) (users s)))
      = {i \<in> set ms. \<exists>u \<in> set (users s). u_id u = i}" for ms
    by auto
  moreover have "r_refs (group_resource M s row)
      = map (user_entry M) (filter (\<lambda>u. u_id u \<in> set (g_members row)) (users s))" for row
  proof -
    have "user_matches (IdIn (g_members row)) = (\<lambda>u. u_id u \<in> set (g_members row))"
      by (rule ext) simp
    then show ?thesis
      by (simp add: group_resource_def userSchema_findMany_def)
  qed
  moreover have "length (map (user_entry M) (filter (\<lambda>u. u_id u \<in> set ms) (users s)))
      = card {i \<in> set ms. \<exists>u \<in> set (users s). u_id u = i}" for ms
  proof -
    have "length (map u_id (filter (\<lambda>u. u_id u \<in> set ms) (users s)))
        = card (set (map u_id (filter (\<lambda>u. u_id u \<in> set ms) (users s))))"
      using assms by (simp only: distinct_card [OF distinct_map_filter])
    also have "set (map u_id (filter (\<lambda>u. u_id u \<in> set ms) (users s)))
        = {i \<in> set ms. \<exists>u \<in> set (users s). u_id u = i}"
      by auto
    finally show ?thesis by simp
  qed
  ultimately show ?thesis
    by (simp add: getGroups_def Let_def)
qed

theorem getGroups_members_resolved_witness:
  "distinct (map u_id (users dangling))
   \<and> getGroups endpointMapper dangling no_filter
       = Inr [\<lparr>r_attrs = [(''id'', Str ''g1''), (''displayName'', Str ''eng'')],
              r_refs = [\<lparr>e_value = Some (Str ''u1''), e_display = Some (Str ''alice'')\<rparr>]\<rparr>]
   \<and> g_members eng = [''u1'', ''u2'']
   \<and> length (r_refs (group_resource endpointMapper dangling eng)) = 1"
proof -
  have ids: "distinct (map u_id (users dangling))"
    by (simp add: sample_defs)
  have run: "getGroups endpointMapper dangling no_filter
       = Inr [\<lparr>r_attrs = [(''id'', Str ''g1''), (''displayName'', Str ''eng'')],
              r_refs = [\<lparr>e_value = Some (Str ''u1''), e_display = Some (Str ''alice'')\<rparr>]\<rparr>]"
    by (simp add: getGroups_def getGroups_filter_def truthy_def no_filter_def group_resource_def
        user_entry_def sample_defs mapper_defs store_defs)
  have len: "length (r_refs (group_resource endpointMapper dangling eng)) = 1"
    by (simp add: group_resource_def user_entry_def sample_defs mapper_defs store_defs)
  show ?thesis
    using ids run len getGroups_members_resolved [OF ids, of endpointMapper no_filter]
    by (simp add: eng_def)
qed

end
